theory Spec2Isabelle
  imports Complex_Main "HOL-Library.Sublist"
begin

section \<open>Python exceptions as values\<close>

text \<open>
  Every \<^verbatim>\<open>raise\<close> of the source, and every exception of a library call the source
  relies on, is a value \<open>Raised kind message\<close>; a function that can raise returns
  \<open>error + 'a\<close> with \<open>Inl\<close> for the exception.
\<close>

datatype exc = ValueError | KeyError | TypeError | IndexError | AttributeError | ServiceError

datatype error = Raised exc string

fun str_of_error :: "error \<Rightarrow> string" where
  "str_of_error (Raised k msg) = msg"

definition bind_err :: "error + 'a \<Rightarrow> ('a \<Rightarrow> error + 'b) \<Rightarrow> error + 'b" where
  "bind_err m f = (case m of Inl e \<Rightarrow> Inl e | Inr x \<Rightarrow> f x)"

section \<open>Floating-point values\<close>

text \<open>
  A float64 is a finite value, an infinity or NaN (the missing value of pandas). Finite
  values are idealised as reals: no rounding, no overflow, no signed zero. The operations
  follow IEEE 754 on the special values, so a division by zero is an infinity or NaN and
  never an exception, and every comparison with NaN is false.
\<close>

datatype fl = Fin real | PInf | NInf | NaN

fun fl_neg :: "fl \<Rightarrow> fl" where
  "fl_neg (Fin a) = Fin (- a)"
| "fl_neg PInf = NInf"
| "fl_neg NInf = PInf"
| "fl_neg NaN = NaN"

fun fl_add :: "fl \<Rightarrow> fl \<Rightarrow> fl" where
  "fl_add (Fin a) (Fin b) = Fin (a + b)"
| "fl_add NaN y = NaN"
| "fl_add x NaN = NaN"
| "fl_add PInf NInf = NaN"
| "fl_add NInf PInf = NaN"
| "fl_add PInf y = PInf"
| "fl_add x PInf = PInf"
| "fl_add NInf y = NInf"
| "fl_add x NInf = NInf"

definition fl_sub :: "fl \<Rightarrow> fl \<Rightarrow> fl" where
  "fl_sub x y = fl_add x (fl_neg y)"

fun fl_mul :: "fl \<Rightarrow> fl \<Rightarrow> fl" where
  "fl_mul (Fin a) (Fin b) = Fin (a * b)"
| "fl_mul NaN y = NaN"
| "fl_mul x NaN = NaN"
| "fl_mul PInf (Fin b) = (if b = 0 then NaN else if 0 < b then PInf else NInf)"
| "fl_mul NInf (Fin b) = (if b = 0 then NaN else if 0 < b then NInf else PInf)"
| "fl_mul (Fin a) PInf = (if a = 0 then NaN else if 0 < a then PInf else NInf)"
| "fl_mul (Fin a) NInf = (if a = 0 then NaN else if 0 < a then NInf else PInf)"
| "fl_mul PInf PInf = PInf"
| "fl_mul NInf NInf = PInf"
| "fl_mul PInf NInf = NInf"
| "fl_mul NInf PInf = NInf"

fun fl_div :: "fl \<Rightarrow> fl \<Rightarrow> fl" where
  "fl_div (Fin a) (Fin b) =
     (if b = 0 then (if a = 0 then NaN else if 0 < a then PInf else NInf) else Fin (a / b))"
| "fl_div NaN y = NaN"
| "fl_div x NaN = NaN"
| "fl_div (Fin a) PInf = Fin 0"
| "fl_div (Fin a) NInf = Fin 0"
| "fl_div PInf (Fin b) = (if 0 \<le> b then PInf else NInf)"
| "fl_div NInf (Fin b) = (if 0 \<le> b then NInf else PInf)"
| "fl_div PInf y = NaN"
| "fl_div NInf y = NaN"

fun fl_abs :: "fl \<Rightarrow> fl" where
  "fl_abs (Fin a) = Fin \<bar>a\<bar>"
| "fl_abs PInf = PInf"
| "fl_abs NInf = PInf"
| "fl_abs NaN = NaN"

fun fl_lt :: "fl \<Rightarrow> fl \<Rightarrow> bool" where
  "fl_lt (Fin a) (Fin b) = (a < b)"
| "fl_lt NaN y = False"
| "fl_lt x NaN = False"
| "fl_lt NInf NInf = False"
| "fl_lt NInf y = True"
| "fl_lt PInf y = False"
| "fl_lt (Fin a) PInf = True"
| "fl_lt (Fin a) NInf = False"

fun fl_eq :: "fl \<Rightarrow> fl \<Rightarrow> bool" where
  "fl_eq NaN y = False"
| "fl_eq x NaN = False"
| "fl_eq x y = (x = y)"

definition fl_gt :: "fl \<Rightarrow> fl \<Rightarrow> bool" where
  "fl_gt x y = fl_lt y x"

definition fl_le :: "fl \<Rightarrow> fl \<Rightarrow> bool" where
  "fl_le x y = (fl_lt x y \<or> fl_eq x y)"

definition fl_ge :: "fl \<Rightarrow> fl \<Rightarrow> bool" where
  "fl_ge x y = fl_le y x"

text \<open>\<^verbatim>\<open>np.finfo(float).eps\<close>, the gap between 1.0 and the next float64.\<close>

definition float_eps :: real where
  "float_eps = 1 / 2 ^ 52"

section \<open>pandas Series of floats\<close>

type_synonym series = "fl list"

text \<open>\<^verbatim>\<open>Series.diff()\<close>: the first row is missing, every other row is its value minus the
  previous one.\<close>

definition series_diff :: "series \<Rightarrow> series" where
  "series_diff xs = map (\<lambda>i. if i = 0 then NaN else fl_sub (xs ! i) (xs ! (i - 1))) [0..<length xs]"

text \<open>\<^verbatim>\<open>s > c\<close> and \<^verbatim>\<open>s < c\<close> for a scalar: a boolean mask, false on a missing value.\<close>

definition series_gt :: "series \<Rightarrow> real \<Rightarrow> bool list" where
  "series_gt xs c = map (\<lambda>x. fl_gt x (Fin c)) xs"

definition series_lt :: "series \<Rightarrow> real \<Rightarrow> bool list" where
  "series_lt xs c = map (\<lambda>x. fl_lt x (Fin c)) xs"

text \<open>\<^verbatim>\<open>s.where(cond, other)\<close> keeps a value where the condition is true and puts
  \<open>other\<close> where it is false, also on a row whose value is missing.\<close>

definition series_where :: "series \<Rightarrow> bool list \<Rightarrow> real \<Rightarrow> series" where
  "series_where xs cond other = map (\<lambda>(x, c). if c then x else Fin other) (zip xs cond)"

definition series_neg :: "series \<Rightarrow> series" where
  "series_neg xs = map fl_neg xs"

text \<open>\<^verbatim>\<open>s.replace(old, new)\<close> on a float series.\<close>

definition series_replace :: "series \<Rightarrow> real \<Rightarrow> real \<Rightarrow> series" where
  "series_replace xs old new = map (\<lambda>x. if fl_eq x (Fin old) then Fin new else x) xs"

definition series_div :: "series \<Rightarrow> series \<Rightarrow> series" where
  "series_div xs ys = map (\<lambda>(x, y). fl_div x y) (zip xs ys)"

definition series_add :: "series \<Rightarrow> series \<Rightarrow> series" where
  "series_add xs ys = map (\<lambda>(x, y). fl_add x y) (zip xs ys)"

definition series_sub :: "series \<Rightarrow> series \<Rightarrow> series" where
  "series_sub xs ys = map (\<lambda>(x, y). fl_sub x y) (zip xs ys)"

definition series_scale :: "series \<Rightarrow> real \<Rightarrow> series" where
  "series_scale xs c = map (\<lambda>x. fl_mul x (Fin c)) xs"

text \<open>
  \<^verbatim>\<open>s.rolling(window=w)\<close>: the window ending at row \<open>i\<close> is rows \<open>i - w + 1 .. i\<close>. With the
  default \<^verbatim>\<open>min_periods = w\<close> a result is present only when the window is complete
  and holds no missing value; pandas turns an infinity into a missing value before it
  aggregates. A window of width 0 never holds an observation.
\<close>

definition window_at :: "nat \<Rightarrow> nat \<Rightarrow> series \<Rightarrow> series option" where
  "window_at w i xs = (if w = 0 \<or> i + 1 < w then None else Some (take w (drop (i + 1 - w) xs)))"

fun finite_vals :: "series \<Rightarrow> real list option" where
  "finite_vals [] = Some []"
| "finite_vals (Fin a # xs) = (case finite_vals xs of None \<Rightarrow> None | Some vs \<Rightarrow> Some (a # vs))"
| "finite_vals (x # xs) = None"

definition mean :: "real list \<Rightarrow> real" where
  "mean vs = sum_list vs / real (length vs)"

definition rolling_apply :: "(real list \<Rightarrow> fl) \<Rightarrow> nat \<Rightarrow> series \<Rightarrow> series" where
  "rolling_apply f w xs =
     map (\<lambda>i. case window_at w i xs of
                 None \<Rightarrow> NaN
               | Some win \<Rightarrow> (case finite_vals win of None \<Rightarrow> NaN | Some vs \<Rightarrow> f vs))
         [0..<length xs]"

definition rolling_mean :: "nat \<Rightarrow> series \<Rightarrow> series" where
  "rolling_mean w xs = rolling_apply (\<lambda>vs. Fin (mean vs)) w xs"

text \<open>\<^verbatim>\<open>rolling(w).std()\<close> is the sample standard deviation (\<^verbatim>\<open>ddof = 1\<close>), missing when
  the window holds a single observation.\<close>

definition sample_std :: "real list \<Rightarrow> fl" where
  "sample_std vs =
     (if length vs \<le> 1 then NaN
      else Fin (sqrt (sum_list (map (\<lambda>v. (v - mean vs)\<^sup>2) vs) / (real (length vs) - 1))))"

definition rolling_std :: "nat \<Rightarrow> series \<Rightarrow> series" where
  "rolling_std w xs = rolling_apply sample_std w xs"

section \<open>pandas DataFrames\<close>

text \<open>
  A cell is a float, a parsed timestamp, the missing timestamp \<^verbatim>\<open>NaT\<close>, or any other
  object, kept as its text. A frame has an index with an optional name and a list of
  labelled columns in their order; labels may repeat, as pandas allows. Integer columns
  (the volume) are held as floats.
\<close>

datatype cell = Num fl | Stamp int | NaT | Text string

datatype index = RangeIndex nat | DatetimeIndex "int option list" | OtherIndex "cell list"

record 'l frame =
  frame_index :: index
  index_name :: "string option"
  columns :: "('l \<times> cell list) list"

fun index_length :: "index \<Rightarrow> nat" where
  "index_length (RangeIndex n) = n"
| "index_length (DatetimeIndex ts) = length ts"
| "index_length (OtherIndex cs) = length cs"

fun index_cells :: "index \<Rightarrow> cell list" where
  "index_cells (RangeIndex n) = map (\<lambda>i. Num (Fin (real i))) [0..<n]"
| "index_cells (DatetimeIndex ts) = map (\<lambda>t. case t of None \<Rightarrow> NaT | Some s \<Rightarrow> Stamp s) ts"
| "index_cells (OtherIndex cs) = cs"

definition column_names :: "'l frame \<Rightarrow> 'l list" where
  "column_names d = map fst (columns d)"

text \<open>\<^verbatim>\<open>DataFrame.empty\<close>: no row or no column.\<close>

definition frame_empty :: "'l frame \<Rightarrow> bool" where
  "frame_empty d = (index_length (frame_index d) = 0 \<or> columns d = [])"

text \<open>
  \<^verbatim>\<open>data[name]\<close> raises KeyError for an unknown label. For a label that occurs more than
  once pandas selects a DataFrame; every use the repository makes of such a selection
  ends in an exception (a frame cannot be parsed by \<^verbatim>\<open>to_datetime\<close> nor assigned to a
  single column), so the selection is modelled as raising.
\<close>

definition get_column :: "'l frame \<Rightarrow> 'l \<Rightarrow> error + cell list" where
  "get_column d name =
     (case filter (\<lambda>c. fst c = name) (columns d) of
        [] \<Rightarrow> Inl (Raised KeyError ''unknown column'')
      | [c] \<Rightarrow> Inr (snd c)
      | c # c' # cs \<Rightarrow> Inl (Raised ValueError ''duplicated column label selects a DataFrame''))"

text \<open>\<^verbatim>\<open>data[name] = values\<close> overwrites the columns of that label in place, or appends a
  new column when there is none.\<close>

definition set_column :: "'l frame \<Rightarrow> 'l \<Rightarrow> cell list \<Rightarrow> 'l frame" where
  "set_column d name vs =
     (if name \<in> set (column_names d)
      then d\<lparr>columns := map (\<lambda>c. if fst c = name then (name, vs) else c) (columns d)\<rparr>
      else d\<lparr>columns := columns d @ [(name, vs)]\<rparr>)"

text \<open>Arithmetic on a column needs numbers: text and timestamps raise TypeError.\<close>

fun as_floats :: "cell list \<Rightarrow> error + series" where
  "as_floats [] = Inr []"
| "as_floats (Num x # cs) = (case as_floats cs of Inl e \<Rightarrow> Inl e | Inr xs \<Rightarrow> Inr (x # xs))"
| "as_floats (c # cs) = Inl (Raised TypeError ''unsupported operand type'')"

definition float_column :: "'l frame \<Rightarrow> 'l \<Rightarrow> error + series" where
  "float_column d name = bind_err (get_column d name) as_floats"

definition num_cells :: "series \<Rightarrow> cell list" where
  "num_cells xs = map Num xs"

section \<open>technical\_analysis.py\<close>

subsection \<open>calculate\_rsi\<close>

definition rsi_delta :: "series \<Rightarrow> series" where
  "rsi_delta close = series_diff close"

definition rsi_gain :: "series \<Rightarrow> series" where
  "rsi_gain close = series_where (rsi_delta close) (series_gt (rsi_delta close) 0) 0"

definition rsi_loss :: "series \<Rightarrow> series" where
  "rsi_loss close = series_neg (series_where (rsi_delta close) (series_lt (rsi_delta close) 0) 0)"

definition rsi_avg_gain :: "series \<Rightarrow> nat \<Rightarrow> series" where
  "rsi_avg_gain close w = rolling_mean w (rsi_gain close)"

definition rsi_avg_loss :: "series \<Rightarrow> nat \<Rightarrow> series" where
  "rsi_avg_loss close w = rolling_mean w (rsi_loss close)"

definition rsi_rs :: "series \<Rightarrow> nat \<Rightarrow> series" where
  "rsi_rs close w = series_div (rsi_avg_gain close w) (series_replace (rsi_avg_loss close w) 0 float_eps)"

definition rsi_of_rs :: "fl \<Rightarrow> fl" where
  "rsi_of_rs rs = fl_sub (Fin 100) (fl_div (Fin 100) (fl_add (Fin 1) rs))"

definition rsi_series :: "series \<Rightarrow> nat \<Rightarrow> series" where
  "rsi_series close w = map rsi_of_rs (rsi_rs close w)"

text \<open>\<^verbatim>\<open>rolling(window=...)\<close> raises ValueError for a negative window.\<close>

definition check_window :: "int \<Rightarrow> error + nat" where
  "check_window window =
     (if window < 0 then Inl (Raised ValueError ''window must be an integer 0 or greater'')
      else Inr (nat window))"

definition calculate_rsi :: "string frame \<Rightarrow> int \<Rightarrow> error + series" where
  "calculate_rsi data window =
     bind_err (float_column data ''close'') (\<lambda>close.
     bind_err (check_window window) (\<lambda>w.
       Inr (rsi_series close w)))"

subsection \<open>calculate\_macd\<close>

text \<open>
  \<^verbatim>\<open>s.ewm(span=n, adjust=False).mean()\<close> with \<open>alpha = 2 / (n + 1)\<close>, as pandas computes
  it: the first value seeds the average, a later observation \<open>x\<close> updates it to
  \<open>(w * old + alpha * x) / (w + alpha)\<close>, where the weight \<open>w\<close> of the old average is
  \<open>1 - alpha\<close> and decays by that factor over every missing row in between. pandas
  raises ValueError for a span below 1.
\<close>

definition check_span :: "int \<Rightarrow> error + real" where
  "check_span n =
     (if n < 1 then Inl (Raised ValueError ''span must satisfy: span >= 1'')
      else Inr (2 / (real_of_int n + 1)))"

definition ewm_step :: "real \<Rightarrow> fl \<times> real \<Rightarrow> fl \<Rightarrow> fl \<times> real" where
  "ewm_step alpha st cur =
     (let weighted = fst st; old_wt = snd st in
      if weighted \<noteq> NaN then
        (if cur \<noteq> NaN then
           ((if \<not> fl_eq weighted cur
             then fl_div (fl_add (fl_mul (Fin (old_wt * (1 - alpha))) weighted) (fl_mul (Fin alpha) cur))
                         (Fin (old_wt * (1 - alpha) + alpha))
             else weighted), 1)
         else (weighted, old_wt * (1 - alpha)))
      else if cur \<noteq> NaN then (cur, old_wt)
      else (weighted, old_wt))"

fun ewm_from :: "real \<Rightarrow> fl \<times> real \<Rightarrow> series \<Rightarrow> series" where
  "ewm_from alpha st [] = []"
| "ewm_from alpha st (x # xs) = fst (ewm_step alpha st x) # ewm_from alpha (ewm_step alpha st x) xs"

definition ewm_mean :: "real \<Rightarrow> series \<Rightarrow> series" where
  "ewm_mean alpha xs = (case xs of [] \<Rightarrow> [] | x # rest \<Rightarrow> x # ewm_from alpha (x, 1) rest)"

definition calculate_macd :: "string frame \<Rightarrow> int \<Rightarrow> int \<Rightarrow> int \<Rightarrow> error + series \<times> series \<times> series" where
  "calculate_macd data fast_period slow_period signal_period =
     bind_err (float_column data ''close'') (\<lambda>close.
     bind_err (check_span fast_period) (\<lambda>alpha_fast.
     bind_err (check_span slow_period) (\<lambda>alpha_slow.
       let ema_fast = ewm_mean alpha_fast close;
           ema_slow = ewm_mean alpha_slow close;
           macd_line = series_sub ema_fast ema_slow
       in bind_err (check_span signal_period) (\<lambda>alpha_signal.
            let signal_line = ewm_mean alpha_signal macd_line;
                histogram = series_sub macd_line signal_line
            in Inr (macd_line, signal_line, histogram)))))"

subsection \<open>calculate\_bollinger\_bands\<close>

definition bb_middle :: "series \<Rightarrow> nat \<Rightarrow> series" where
  "bb_middle close w = rolling_mean w close"

definition bb_std_dev :: "series \<Rightarrow> nat \<Rightarrow> series" where
  "bb_std_dev close w = rolling_std w close"

definition bb_upper :: "series \<Rightarrow> nat \<Rightarrow> real \<Rightarrow> series" where
  "bb_upper close w num_std = series_add (bb_middle close w) (series_scale (bb_std_dev close w) num_std)"

definition bb_lower :: "series \<Rightarrow> nat \<Rightarrow> real \<Rightarrow> series" where
  "bb_lower close w num_std = series_sub (bb_middle close w) (series_scale (bb_std_dev close w) num_std)"

definition calculate_bollinger_bands :: "string frame \<Rightarrow> int \<Rightarrow> real \<Rightarrow> error + series \<times> series \<times> series" where
  "calculate_bollinger_bands data window num_std =
     bind_err (float_column data ''close'') (\<lambda>close.
     bind_err (check_window window) (\<lambda>w.
       Inr (bb_upper close w num_std, bb_middle close w, bb_lower close w num_std)))"

subsection \<open>scipy.signal.find\_peaks\<close>

text \<open>
  The library routine behind \<^verbatim>\<open>find_support_resistance\<close>, as called there with
  \<^verbatim>\<open>distance\<close> and \<^verbatim>\<open>prominence\<close> only. It is not part of the repository; the
  definitions follow SciPy's algorithm step by step: local maxima by comparison with the
  neighbours (the middle of a plateau counts once), then the distance rule applied from
  the highest peak down, then the prominence threshold.
\<close>

function plateau_end :: "series \<Rightarrow> fl \<Rightarrow> nat \<Rightarrow> nat" where
  "plateau_end x v j = (if j < length x - 1 \<and> fl_eq (x ! j) v then plateau_end x v (j + 1) else j)"
  by pat_completeness auto
termination
  by (relation "measure (\<lambda>(x, v, j). length x - j)") auto

declare plateau_end.simps [simp del]

lemma plateau_end_ge: "j \<le> plateau_end x v j"
proof (induction x v j rule: plateau_end.induct)
  case (1 x v j)
  show ?case
  proof (cases "j < length x - 1 \<and> fl_eq (x ! j) v")
    case True
    with 1 have "j + 1 \<le> plateau_end x v (j + 1)" by blast
    with True show ?thesis by (subst plateau_end.simps) simp
  next
    case False
    then show ?thesis by (subst plateau_end.simps) auto
  qed
qed

function local_maxima_from :: "series \<Rightarrow> nat \<Rightarrow> nat list" where
  "local_maxima_from x i =
     (if i < length x - 1 then
        (if fl_lt (x ! (i - 1)) (x ! i) then
           (if fl_lt (x ! plateau_end x (x ! i) (i + 1)) (x ! i)
            then ((i + (plateau_end x (x ! i) (i + 1) - 1)) div 2)
                   # local_maxima_from x (plateau_end x (x ! i) (i + 1) + 1)
            else local_maxima_from x (i + 1))
         else local_maxima_from x (i + 1))
      else [])"
  by pat_completeness auto
termination
proof (relation "measure (\<lambda>(x, i). length x - i)")
  show "wf (measure (\<lambda>(x, i). length x - i))" by simp
next
  fix x :: series and i :: nat
  assume "i < length x - 1"
  moreover have "i + 1 \<le> plateau_end x (x ! i) (i + 1)" by (rule plateau_end_ge)
  ultimately show "((x, plateau_end x (x ! i) (i + 1) + 1), x, i) \<in> measure (\<lambda>(x, i). length x - i)"
    by simp
next
  fix x :: series and i :: nat
  assume "i < length x - 1"
  then show "((x, i + 1), x, i) \<in> measure (\<lambda>(x, i). length x - i)" by simp
next
  fix x :: series and i :: nat
  assume "i < length x - 1"
  then show "((x, i + 1), x, i) \<in> measure (\<lambda>(x, i). length x - i)" by simp
qed

declare local_maxima_from.simps [simp del]

definition local_maxima_1d :: "series \<Rightarrow> nat list" where
  "local_maxima_1d x = local_maxima_from x 1"

text \<open>Python's \<^verbatim>\<open>sorted\<close> and NumPy's \<^verbatim>\<open>argsort\<close>, as a stable insertion sort on the
  comparison \<^verbatim>\<open><\<close>.\<close>

fun insort_by :: "('a \<Rightarrow> 'a \<Rightarrow> bool) \<Rightarrow> 'a \<Rightarrow> 'a list \<Rightarrow> 'a list" where
  "insort_by lt x [] = [x]"
| "insort_by lt x (y # ys) = (if lt y x then y # insort_by lt x ys else x # y # ys)"

definition sort_by :: "('a \<Rightarrow> 'a \<Rightarrow> bool) \<Rightarrow> 'a list \<Rightarrow> 'a list" where
  "sort_by lt xs = foldr (insort_by lt) xs []"

definition py_sorted :: "series \<Rightarrow> series" where
  "py_sorted xs = sort_by fl_lt xs"

definition argsort :: "series \<Rightarrow> nat list" where
  "argsort ps = sort_by (\<lambda>i j. fl_lt (ps ! i) (ps ! j)) [0..<length ps]"

primrec clear_left :: "nat list \<Rightarrow> nat \<Rightarrow> nat \<Rightarrow> nat \<Rightarrow> bool list \<Rightarrow> bool list" where
  "clear_left peaks d j 0 keep = keep"
| "clear_left peaks d j (Suc k) keep =
     (if int (peaks ! j) - int (peaks ! k) < int d
      then clear_left peaks d j k (keep[k := False]) else keep)"

function clear_right :: "nat list \<Rightarrow> nat \<Rightarrow> nat \<Rightarrow> nat \<Rightarrow> bool list \<Rightarrow> bool list" where
  "clear_right peaks d j k keep =
     (if k < length peaks \<and> int (peaks ! k) - int (peaks ! j) < int d
      then clear_right peaks d j (k + 1) (keep[k := False]) else keep)"
  by pat_completeness auto
termination
  by (relation "measure (\<lambda>(peaks, d, j, k, keep). length peaks - k)") auto

declare clear_right.simps [simp del]

definition select_by_peak_distance :: "nat list \<Rightarrow> series \<Rightarrow> nat \<Rightarrow> bool list" where
  "select_by_peak_distance peaks priority d =
     foldl (\<lambda>keep j. if keep ! j then clear_right peaks d j (j + 1) (clear_left peaks d j j keep) else keep)
           (replicate (length peaks) True)
           (rev (argsort priority))"

definition keep_where :: "'a list \<Rightarrow> bool list \<Rightarrow> 'a list" where
  "keep_where xs keep = map fst (filter snd (zip xs keep))"

primrec left_min :: "series \<Rightarrow> nat \<Rightarrow> nat \<Rightarrow> fl \<Rightarrow> fl" where
  "left_min x peak 0 m = m"
| "left_min x peak (Suc i) m =
     (if fl_le (x ! i) (x ! peak)
      then left_min x peak i (if fl_lt (x ! i) m then x ! i else m) else m)"

function right_min :: "series \<Rightarrow> nat \<Rightarrow> nat \<Rightarrow> fl \<Rightarrow> fl" where
  "right_min x peak i m =
     (if i < length x \<and> fl_le (x ! i) (x ! peak)
      then right_min x peak (i + 1) (if fl_lt (x ! i) m then x ! i else m) else m)"
  by pat_completeness auto
termination
  by (relation "measure (\<lambda>(x, peak, i, m). length x - i)") auto

declare right_min.simps [simp del]

definition fl_max :: "fl \<Rightarrow> fl \<Rightarrow> fl" where
  "fl_max a b = (if fl_gt b a then b else a)"

definition peak_prominence :: "series \<Rightarrow> nat \<Rightarrow> fl" where
  "peak_prominence x peak =
     fl_sub (x ! peak) (fl_max (left_min x peak (Suc peak) (x ! peak)) (right_min x peak peak (x ! peak)))"

definition find_peaks :: "series \<Rightarrow> int \<Rightarrow> real \<Rightarrow> error + nat list" where
  "find_peaks x distance prominence =
     (if distance < 1 then Inl (Raised ValueError ''distance must be greater or equal to 1'')
      else
        let peaks = local_maxima_1d x;
            peaks = keep_where peaks (select_by_peak_distance peaks (map (\<lambda>p. x ! p) peaks) (nat distance));
            peaks = filter (\<lambda>p. fl_le (Fin prominence) (peak_prominence x p)) peaks
        in Inr peaks)"

subsection \<open>find\_support\_resistance\<close>

definition last5 :: "'a list \<Rightarrow> 'a list" where
  "last5 xs = drop (length xs - 5) xs"

definition recent_levels :: "series \<Rightarrow> series" where
  "recent_levels levels = (if length levels > 0 then last5 (py_sorted levels) else [])"

text \<open>The test of the list comprehension: \<^verbatim>\<open>abs(s - levels[i]) / s > 0.001\<close>.\<close>

definition far_from :: "fl \<Rightarrow> fl \<Rightarrow> bool" where
  "far_from s prev = fl_gt (fl_div (fl_abs (fl_sub s prev)) s) (Fin (1 / 1000))"

definition remove_close_levels :: "series \<Rightarrow> series" where
  "remove_close_levels levels =
     (case levels of
        [] \<Rightarrow> []
      | l0 # rest \<Rightarrow> l0 # map snd (filter (\<lambda>(i, s). far_from s (levels ! i)) (enumerate 0 rest)))"

definition find_support_resistance :: "string frame \<Rightarrow> int \<Rightarrow> real \<Rightarrow> error + series \<times> series" where
  "find_support_resistance data window prominence =
     bind_err (float_column data ''close'') (\<lambda>prices.
     bind_err (find_peaks prices window prominence) (\<lambda>resistance_idx.
       let resistance_levels = map (\<lambda>i. prices ! i) resistance_idx in
     bind_err (find_peaks (map fl_neg prices) window prominence) (\<lambda>support_idx.
       let support_levels = map (\<lambda>i. prices ! i) support_idx;
           support_levels = recent_levels support_levels;
           resistance_levels = recent_levels resistance_levels;
           support_levels = remove_close_levels support_levels;
           resistance_levels = remove_close_levels resistance_levels
       in Inr (support_levels, resistance_levels))))"

subsection \<open>calculate\_all\_indicators\<close>

record indicators =
  b_data :: "string frame"
  b_support_levels :: series
  b_resistance_levels :: series
  b_last_price :: "cell option"

text \<open>\<^verbatim>\<open>s.iloc[-1]\<close> raises IndexError on an empty series.\<close>

definition iloc_last :: "'a list \<Rightarrow> error + 'a" where
  "iloc_last xs = (if xs = [] then Inl (Raised IndexError ''single positional indexer is out-of-bounds'') else Inr (last xs))"

definition iloc_first :: "'a list \<Rightarrow> error + 'a" where
  "iloc_first xs = (case xs of [] \<Rightarrow> Inl (Raised IndexError ''single positional indexer is out-of-bounds'') | x # _ \<Rightarrow> Inr x)"

definition with_rsi :: "string frame \<Rightarrow> error + string frame" where
  "with_rsi data =
     bind_err (calculate_rsi data 14) (\<lambda>rsi. Inr (set_column data ''rsi'' (num_cells rsi)))"

definition with_macd :: "string frame \<Rightarrow> error + string frame" where
  "with_macd data =
     bind_err (calculate_macd data 12 26 9) (\<lambda>r.
       Inr (set_column
             (set_column
               (set_column data ''macd'' (num_cells (fst r)))
               ''macd_signal'' (num_cells (fst (snd r))))
             ''macd_histogram'' (num_cells (snd (snd r)))))"

definition with_bollinger_bands :: "string frame \<Rightarrow> error + string frame" where
  "with_bollinger_bands data =
     bind_err (calculate_bollinger_bands data 20 2) (\<lambda>r.
       Inr (set_column
             (set_column
               (set_column data ''bb_upper'' (num_cells (fst r)))
               ''bb_middle'' (num_cells (fst (snd r))))
             ''bb_lower'' (num_cells (snd (snd r)))))"

definition last_close :: "string frame \<Rightarrow> error + cell option" where
  "last_close data =
     (if \<not> frame_empty data
      then bind_err (get_column data ''close'') (\<lambda>c. bind_err (iloc_last c) (\<lambda>v. Inr (Some v)))
      else Inr None)"

definition calculate_all_indicators :: "string frame \<Rightarrow> error + indicators" where
  "calculate_all_indicators data0 =
     bind_err (with_rsi data0) (\<lambda>data1.
     bind_err (with_macd data1) (\<lambda>data2.
     bind_err (with_bollinger_bands data2) (\<lambda>data3.
     bind_err (find_support_resistance data3 10 (1 / 2)) (\<lambda>levels.
     bind_err (last_close data3) (\<lambda>last_price.
       Inr \<lparr>b_data = data3, b_support_levels = fst levels,
            b_resistance_levels = snd levels, b_last_price = last_price\<rparr>)))))"

section \<open>Canonical price series\<close>

text \<open>
  The canonical series of the specification as a frame: one row per price point
  \<open>(timestamp, open, high, low, close, volume)\<close>, under the six canonical column names and
  the default integer index, which is how the normalizer hands a series on.
\<close>

type_synonym price_point = "int \<times> real \<times> real \<times> real \<times> real \<times> real"

definition pp_close :: "price_point \<Rightarrow> real" where
  "pp_close p = fst (snd (snd (snd (snd p))))"

definition price_frame :: "price_point list \<Rightarrow> string frame" where
  "price_frame rows =
     \<lparr>frame_index = RangeIndex (length rows), index_name = None,
      columns =
        [(''date'', map (\<lambda>p. Stamp (fst p)) rows),
         (''open'', map (\<lambda>p. Num (Fin (fst (snd p)))) rows),
         (''high'', map (\<lambda>p. Num (Fin (fst (snd (snd p))))) rows),
         (''low'', map (\<lambda>p. Num (Fin (fst (snd (snd (snd p)))))) rows),
         (''close'', map (\<lambda>p. Num (Fin (pp_close p))) rows),
         (''volume'', map (\<lambda>p. Num (Fin (snd (snd (snd (snd (snd p))))))) rows)]\<rparr>"

text \<open>A bar whose open, high, low and close are all \<open>c\<close>, at time \<open>t\<close>, with no volume.\<close>

definition flat_bar :: "int \<Rightarrow> real \<Rightarrow> price_point" where
  "flat_bar t c = (t, c, c, c, c, 0)"

definition is_fin :: "fl \<Rightarrow> bool" where
  "is_fin x = (case x of Fin r \<Rightarrow> True | _ \<Rightarrow> False)"

definition fin_ge0 :: "fl \<Rightarrow> bool" where
  "fin_ge0 x = (case x of Fin r \<Rightarrow> 0 \<le> r | _ \<Rightarrow> False)"

definition fin_pos :: "fl \<Rightarrow> bool" where
  "fin_pos x = (case x of Fin r \<Rightarrow> 0 < r | _ \<Rightarrow> False)"

definition finite_series :: "series \<Rightarrow> bool" where
  "finite_series xs = list_all is_fin xs"

definition positive_series :: "series \<Rightarrow> bool" where
  "positive_series xs = list_all fin_pos xs"

text \<open>\<^verbatim>\<open>s.isna()\<close>: the rows whose value is missing.\<close>

definition isna :: "series \<Rightarrow> bool list" where
  "isna xs = map (\<lambda>x. x = NaN) xs"

text \<open>The de-duplication pass of \<^verbatim>\<open>find_support_resistance\<close> read as a recursion: each level
  is compared with the level just before it in the list, whether that one was kept or not.\<close>

fun keep_far :: "fl \<Rightarrow> series \<Rightarrow> series" where
  "keep_far p [] = []"
| "keep_far p (s # rest) = (if far_from s p then s # keep_far s rest else keep_far s rest)"

text \<open>The spacing the specification asks of a kept level \<open>a\<close> and the next kept level \<open>b\<close>:
  \<open>|b - a| / a > 0.001\<close>.\<close>

definition spaced :: "fl \<Rightarrow> fl \<Rightarrow> bool" where
  "spaced a b = fl_gt (fl_div (fl_abs (fl_sub b a)) a) (Fin (1 / 1000))"

text \<open>A series of flat bars with the given closes, at times 0, 1, 2, ...\<close>

definition flat_series :: "real list \<Rightarrow> price_point list" where
  "flat_series cs = map (\<lambda>(i, c). flat_bar (int i) c) (enumerate 0 cs)"

text \<open>Thirteen closes with a peak of 1950 at row 1 and a peak of 1960 at row 11.\<close>

definition two_peaks :: "real list" where
  "two_peaks = [1900, 1950, 1900, 1900, 1900, 1900, 1900, 1900, 1900, 1900, 1900, 1960, 1900]"

section \<open>The float64 range\<close>

text \<open>The largest finite float64, \<^verbatim>\<open>np.finfo(float).max\<close>.\<close>

definition float_max :: real where
  "float_max = (2 - 1 / 2 ^ 52) * 2 ^ 1023"

text \<open>
  The closes on which the sums of \<^verbatim>\<open>calculate_rsi\<close> cannot overflow: every close is finite
  and at most \<open>float_max / (4 * (w + 1))\<close> in magnitude. A difference of two such closes is
  at most \<open>float_max / (2 * (w + 1))\<close> in magnitude and a sum of \<open>w\<close> of them at most
  \<open>float_max / 2\<close>, so no difference and no running sum of a window of \<open>w\<close> rows
  leaves the float64 range, with room for the rounding of each step. Outside this range the
  code can lose a row to an overflow that finite values idealised as reals do not show.
\<close>

definition within_float_range :: "nat \<Rightarrow> series \<Rightarrow> bool" where
  "within_float_range w xs =
     list_all (\<lambda>x. case x of Fin r \<Rightarrow> 4 * \<bar>r\<bar> * (real w + 1) \<le> float_max | _ \<Rightarrow> False) xs"

text \<open>A finite value between 0 and \<open>m\<close>.\<close>

definition fin_upto :: "real \<Rightarrow> fl \<Rightarrow> bool" where
  "fin_upto m x = (case x of Fin r \<Rightarrow> 0 \<le> r \<and> r \<le> m | _ \<Rightarrow> False)"

section \<open>Properties of calculate\_rsi\<close>

lemma as_floats_num_cells [simp]: "as_floats (map Num xs) = Inr xs"
  by (induction xs) auto

lemma float_column_price_frame:
  "float_column (price_frame rows) ''close'' = Inr (map (\<lambda>p. Fin (pp_close p)) rows)"
proof -
  have "get_column (price_frame rows) ''close'' = Inr (map (\<lambda>p. Num (Fin (pp_close p))) rows)"
    by (simp add: get_column_def price_frame_def)
  moreover have "map (\<lambda>p. Num (Fin (pp_close p))) rows = map Num (map (\<lambda>p. Fin (pp_close p)) rows)"
    by simp
  ultimately show ?thesis
    by (simp only: float_column_def bind_err_def sum.case as_floats_num_cells)
qed

lemma length_series_diff [simp]: "length (series_diff xs) = length xs"
  by (simp add: series_diff_def)

lemma length_rolling_apply [simp]: "length (rolling_apply f w xs) = length xs"
  by (simp add: rolling_apply_def)

lemma length_rsi_gain [simp]: "length (rsi_gain close) = length close"
  by (simp add: rsi_gain_def rsi_delta_def series_where_def series_gt_def)

lemma length_rsi_loss [simp]: "length (rsi_loss close) = length close"
  by (simp add: rsi_loss_def rsi_delta_def series_where_def series_lt_def series_neg_def)

lemma length_rsi_series [simp]: "length (rsi_series close w) = length close"
  by (simp add: rsi_series_def rsi_rs_def series_div_def series_replace_def
      rsi_avg_gain_def rsi_avg_loss_def rolling_mean_def)

lemma is_fin_nth: "finite_series xs \<Longrightarrow> i < length xs \<Longrightarrow> \<exists>r. xs ! i = Fin r"
  by (cases "xs ! i") (auto simp: finite_series_def list_all_length is_fin_def)

lemma rsi_gain_ge0:
  assumes "finite_series close" "i < length close"
  shows "fin_ge0 (rsi_gain close ! i)"
proof (cases "i = 0")
  case True
  with assms show ?thesis
    by (simp add: rsi_gain_def rsi_delta_def series_where_def series_gt_def series_diff_def
        fl_gt_def fin_ge0_def)
next
  case False
  obtain a where a: "close ! i = Fin a" using is_fin_nth[OF assms] by blast
  have "i - 1 < length close" using assms by simp
  then obtain b where b: "close ! (i - 1) = Fin b" using is_fin_nth[OF assms(1)] by blast
  from False assms a b show ?thesis
    by (simp add: rsi_gain_def rsi_delta_def series_where_def series_gt_def series_diff_def
        fl_gt_def fin_ge0_def fl_sub_def)
qed

lemma rsi_loss_ge0:
  assumes "finite_series close" "i < length close"
  shows "fin_ge0 (rsi_loss close ! i)"
proof (cases "i = 0")
  case True
  with assms show ?thesis
    by (simp add: rsi_loss_def rsi_delta_def series_where_def series_lt_def series_diff_def
        series_neg_def fin_ge0_def)
next
  case False
  obtain a where a: "close ! i = Fin a" using is_fin_nth[OF assms] by blast
  have "i - 1 < length close" using assms by simp
  then obtain b where b: "close ! (i - 1) = Fin b" using is_fin_nth[OF assms(1)] by blast
  from False assms a b show ?thesis
    by (simp add: rsi_loss_def rsi_delta_def series_where_def series_lt_def series_diff_def
        series_neg_def fin_ge0_def fl_sub_def)
qed

lemma finite_vals_ge0:
  "list_all fin_ge0 xs \<Longrightarrow> \<exists>vs. finite_vals xs = Some vs \<and> length vs = length xs \<and> (\<forall>v\<in>set vs. 0 \<le> v)"
proof (induction xs)
  case Nil
  then show ?case by simp
next
  case (Cons x xs)
  then obtain vs where vs: "finite_vals xs = Some vs" "length vs = length xs" "\<forall>v\<in>set vs. 0 \<le> v"
    by auto
  from Cons.prems obtain r where "x = Fin r" "0 \<le> r"
    by (auto simp: fin_ge0_def split: fl.splits)
  with vs show ?case by simp
qed

lemma mean_ge0: "\<forall>v\<in>set vs. 0 \<le> v \<Longrightarrow> 0 \<le> mean vs"
  by (simp add: mean_def sum_list_nonneg)

lemma rolling_mean_cold:
  "i < length xs \<Longrightarrow> i + 1 < w \<Longrightarrow> rolling_mean w xs ! i = NaN"
  by (simp add: rolling_mean_def rolling_apply_def window_at_def)

lemma rolling_mean_warm:
  assumes "list_all fin_ge0 xs" "0 < w" "w \<le> i + 1" "i < length xs"
  shows "fin_ge0 (rolling_mean w xs ! i)"
proof -
  let ?win = "take w (drop (i + 1 - w) xs)"
  have "set ?win \<subseteq> set xs"
    by (meson set_take_subset set_drop_subset subset_trans)
  with assms(1) have "list_all fin_ge0 ?win"
    by (auto simp: list_all_iff)
  then obtain vs where vs: "finite_vals ?win = Some vs" "\<forall>v\<in>set vs. 0 \<le> v"
    using finite_vals_ge0 by blast
  from assms vs mean_ge0[OF vs(2)] show ?thesis
    by (simp add: rolling_mean_def rolling_apply_def window_at_def fin_ge0_def)
qed

lemma rsi_of_rs_bounds:
  assumes "0 \<le> q"
  shows "\<exists>r. rsi_of_rs (Fin q) = Fin r \<and> 0 \<le> r \<and> r < 100"
proof -
  have "1 + q \<noteq> 0" using assms by simp
  then have eq: "rsi_of_rs (Fin q) = Fin (100 - 100 / (1 + q))"
    by (simp add: rsi_of_rs_def fl_sub_def)
  have "100 / (1 + q) \<le> 100" using assms by (simp add: divide_le_eq)
  moreover have "0 < 100 / (1 + q)" using assms by simp
  ultimately show ?thesis using eq by auto
qed

lemma rsi_series_nth:
  "i < length close \<Longrightarrow> rsi_series close w ! i =
     rsi_of_rs (fl_div (rsi_avg_gain close w ! i)
       (if fl_eq (rsi_avg_loss close w ! i) (Fin 0) then Fin float_eps else rsi_avg_loss close w ! i))"
  by (simp add: rsi_series_def rsi_rs_def series_div_def series_replace_def
      rsi_avg_gain_def rsi_avg_loss_def rolling_mean_def)

lemma rsi_cold:
  assumes "i < length close" "i + 1 < w"
  shows "rsi_series close w ! i = NaN"
  using assms
  by (simp add: rsi_series_nth rsi_avg_gain_def rolling_mean_cold rsi_of_rs_def fl_sub_def)

lemma rsi_warm:
  assumes "finite_series close" "0 < w" "w \<le> i + 1" "i < length close"
  shows "\<exists>g l. rsi_avg_gain close w ! i = Fin g \<and> 0 \<le> g \<and> rsi_avg_loss close w ! i = Fin l \<and> 0 \<le> l
     \<and> rsi_series close w ! i = Fin (100 - 100 / (1 + g / (if l = 0 then float_eps else l)))"
proof -
  have "list_all fin_ge0 (rsi_gain close)" "list_all fin_ge0 (rsi_loss close)"
    using rsi_gain_ge0[OF assms(1)] rsi_loss_ge0[OF assms(1)] by (simp_all add: list_all_length)
  then have "fin_ge0 (rsi_avg_gain close w ! i)" "fin_ge0 (rsi_avg_loss close w ! i)"
    using assms by (simp_all add: rsi_avg_gain_def rsi_avg_loss_def rolling_mean_warm)
  then obtain g l where gl: "rsi_avg_gain close w ! i = Fin g" "0 \<le> g"
      "rsi_avg_loss close w ! i = Fin l" "0 \<le> l"
    by (auto simp: fin_ge0_def split: fl.splits)
  define d where "d = (if l = 0 then float_eps else l)"
  have d: "0 < d" using gl by (simp add: d_def float_eps_def)
  have "0 \<le> g / d" using gl d by simp
  then have nz: "1 + g / d \<noteq> 0" by linarith
  have repl: "(if fl_eq (Fin l) (Fin 0) then Fin float_eps else Fin l) = Fin d"
    by (simp add: d_def)
  have "rsi_series close w ! i = rsi_of_rs (fl_div (Fin g) (Fin d))"
    by (simp only: rsi_series_nth[OF assms(4)] gl repl)
  also have "\<dots> = Fin (100 - 100 / (1 + g / d))"
    using d nz by (simp add: rsi_of_rs_def fl_sub_def)
  finally have "rsi_series close w ! i = Fin (100 - 100 / (1 + g / (if l = 0 then float_eps else l)))"
    by (simp add: d_def)
  with gl show ?thesis by blast
qed


lemmas rsi_eval = calculate_rsi_def check_window_def bind_err_def rsi_series_def rsi_rs_def
  rsi_avg_gain_def rsi_avg_loss_def rsi_gain_def rsi_loss_def rsi_delta_def series_diff_def
  series_where_def series_gt_def series_lt_def series_neg_def rolling_mean_def rolling_apply_def
  window_at_def mean_def series_replace_def series_div_def rsi_of_rs_def fl_sub_def fl_gt_def

subsection \<open>No sum of calculate\_rsi overflows on closes within the float64 range\<close>

lemma float_max_pos: "0 < float_max"
  unfolding float_max_def by (intro mult_pos_pos) simp_all

lemma within_float_range_finite: "within_float_range w xs \<Longrightarrow> finite_series xs"
  by (auto simp: within_float_range_def finite_series_def list_all_iff is_fin_def split: fl.splits)

lemma within_float_range_nth:
  "within_float_range w xs \<Longrightarrow> i < length xs \<Longrightarrow>
     \<exists>r. xs ! i = Fin r \<and> 4 * \<bar>r\<bar> * (real w + 1) \<le> float_max"
  by (cases "xs ! i") (auto simp: within_float_range_def list_all_length)

lemma difference_in_range:
  fixes a b k :: real
  assumes "0 < k" "4 * \<bar>a\<bar> * k \<le> m" "4 * \<bar>b\<bar> * k \<le> m"
  shows "a - b \<le> m / (2 * k)"
proof -
  have "a - b \<le> \<bar>a\<bar> + \<bar>b\<bar>" by simp
  then have "(a - b) * (2 * k) \<le> (\<bar>a\<bar> + \<bar>b\<bar>) * (2 * k)"
    using assms(1) by (intro mult_right_mono) simp_all
  also have "\<dots> = (4 * \<bar>a\<bar> * k + 4 * \<bar>b\<bar> * k) / 2" by (simp add: algebra_simps)
  also have "\<dots> \<le> m" using assms(2,3) by simp
  finally show ?thesis using assms(1) by (simp add: pos_le_divide_eq)
qed

lemma rsi_gain_upto:
  assumes "within_float_range w close" "i < length close"
  shows "fin_upto (float_max / (2 * (real w + 1))) (rsi_gain close ! i)"
proof (cases "i = 0")
  case True
  have "0 \<le> float_max / (2 * (real w + 1))" using float_max_pos by simp
  with True assms show ?thesis
    by (simp add: rsi_gain_def rsi_delta_def series_where_def series_gt_def series_diff_def
        fl_gt_def fin_upto_def)
next
  case False
  obtain a where a: "close ! i = Fin a" "4 * \<bar>a\<bar> * (real w + 1) \<le> float_max"
    using within_float_range_nth[OF assms] by blast
  have "i - 1 < length close" using assms by simp
  then obtain b where b: "close ! (i - 1) = Fin b" "4 * \<bar>b\<bar> * (real w + 1) \<le> float_max"
    using within_float_range_nth[OF assms(1)] by blast
  have k: "0 < real w + 1" by simp
  have d: "a - b \<le> float_max / (2 * (real w + 1))"
    using difference_in_range[OF k a(2) b(2)] .
  have z: "0 \<le> float_max / (2 * (real w + 1))" using float_max_pos by simp
  from False assms a(1) b(1) d z show ?thesis
    by (simp add: rsi_gain_def rsi_delta_def series_where_def series_gt_def series_diff_def
        fl_gt_def fin_upto_def fl_sub_def)
qed

lemma rsi_loss_upto:
  assumes "within_float_range w close" "i < length close"
  shows "fin_upto (float_max / (2 * (real w + 1))) (rsi_loss close ! i)"
proof (cases "i = 0")
  case True
  have "0 \<le> float_max / (2 * (real w + 1))" using float_max_pos by simp
  with True assms show ?thesis
    by (simp add: rsi_loss_def rsi_delta_def series_where_def series_lt_def series_diff_def
        series_neg_def fin_upto_def)
next
  case False
  obtain a where a: "close ! i = Fin a" "4 * \<bar>a\<bar> * (real w + 1) \<le> float_max"
    using within_float_range_nth[OF assms] by blast
  have "i - 1 < length close" using assms by simp
  then obtain b where b: "close ! (i - 1) = Fin b" "4 * \<bar>b\<bar> * (real w + 1) \<le> float_max"
    using within_float_range_nth[OF assms(1)] by blast
  have k: "0 < real w + 1" by simp
  have d: "b - a \<le> float_max / (2 * (real w + 1))"
    using difference_in_range[OF k b(2) a(2)] .
  have z: "0 \<le> float_max / (2 * (real w + 1))" using float_max_pos by simp
  from False assms a(1) b(1) d z show ?thesis
    by (simp add: rsi_loss_def rsi_delta_def series_where_def series_lt_def series_diff_def
        series_neg_def fin_upto_def fl_sub_def)
qed

lemma finite_vals_upto:
  "list_all (fin_upto m) xs \<Longrightarrow>
     \<exists>vs. finite_vals xs = Some vs \<and> length vs = length xs \<and> (\<forall>v\<in>set vs. 0 \<le> v \<and> v \<le> m)"
proof (induction xs)
  case Nil
  then show ?case by simp
next
  case (Cons x xs)
  then obtain vs where vs: "finite_vals xs = Some vs" "length vs = length xs"
      "\<forall>v\<in>set vs. 0 \<le> v \<and> v \<le> m"
    by auto
  from Cons.prems obtain r where "x = Fin r" "0 \<le> r" "r \<le> m"
    by (auto simp: fin_upto_def split: fl.splits)
  with vs show ?case by simp
qed

lemma sum_list_upto:
  fixes vs :: "real list"
  shows "\<forall>v\<in>set vs. v \<le> m \<Longrightarrow> sum_list vs \<le> m * real (length vs)"
  by (induction vs) (auto simp: algebra_simps)

lemma rolling_mean_upto:
  assumes "list_all (fin_upto m) xs" "0 < w" "w \<le> i + 1" "i < length xs"
  shows "\<exists>g. rolling_mean w xs ! i = Fin g \<and> 0 \<le> g \<and> g * real w \<le> m * real w"
proof -
  let ?win = "take w (drop (i + 1 - w) xs)"
  have len: "length ?win = w" using assms(3,4) by simp
  have "set ?win \<subseteq> set xs"
    by (meson set_take_subset set_drop_subset subset_trans)
  with assms(1) have "list_all (fin_upto m) ?win"
    by (auto simp: list_all_iff)
  then obtain vs where vs: "finite_vals ?win = Some vs" "length vs = length ?win"
      "\<forall>v\<in>set vs. 0 \<le> v \<and> v \<le> m"
    using finite_vals_upto by blast
  have lv: "length vs = w" using vs(2) len by simp
  have s0: "0 \<le> sum_list vs" using vs(3) by (simp add: sum_list_nonneg)
  have s1: "sum_list vs \<le> m * real w" using sum_list_upto[of vs m] vs(3) lv by simp
  have m: "mean vs * real w = sum_list vs" using assms(2) lv by (simp add: mean_def)
  have v: "rolling_mean w xs ! i = Fin (mean vs)"
    using assms vs(1) by (simp add: rolling_mean_def rolling_apply_def window_at_def)
  have "0 \<le> mean vs" using s0 by (simp add: mean_def)
  with v m s1 show ?thesis by simp
qed

text \<open>
  On closes within the float64 range every window sum that \<^verbatim>\<open>rolling(window).mean()\<close> forms
  for the average gain and the average loss lies between 0 and \<open>float_max / 2\<close>: the
  averages are finite in float64 as they are in the reals.
\<close>

lemma rsi_window_sums_in_range:
  assumes "within_float_range w close" "0 < w" "w \<le> i + 1" "i < length close"
  shows "\<exists>g l. rsi_avg_gain close w ! i = Fin g \<and> rsi_avg_loss close w ! i = Fin l \<and>
           0 \<le> g \<and> 0 \<le> l \<and> g * real w \<le> float_max / 2 \<and> l * real w \<le> float_max / 2"
proof -
  let ?m = "float_max / (2 * (real w + 1))"
  have "list_all (fin_upto ?m) (rsi_gain close)" "list_all (fin_upto ?m) (rsi_loss close)"
    using rsi_gain_upto[OF assms(1)] rsi_loss_upto[OF assms(1)] by (simp_all add: list_all_length)
  then obtain g l where g: "rsi_avg_gain close w ! i = Fin g" "0 \<le> g" "g * real w \<le> ?m * real w"
      and l: "rsi_avg_loss close w ! i = Fin l" "0 \<le> l" "l * real w \<le> ?m * real w"
    using rolling_mean_upto[of ?m _ w i] assms(2,3,4)
    unfolding rsi_avg_gain_def rsi_avg_loss_def
    by (metis length_rsi_gain length_rsi_loss)
  have "real w / (real w + 1) \<le> 1" by simp
  then have "float_max / 2 * (real w / (real w + 1)) \<le> float_max / 2 * 1"
    using float_max_pos by (intro mult_left_mono) simp_all
  then have "?m * real w \<le> float_max / 2" by (simp add: field_simps)
  with g(3) l(3) have "g * real w \<le> float_max / 2" "l * real w \<le> float_max / 2"
    by linarith+
  with g(1,2) l(1,2) show ?thesis by blast
qed

text \<open>
  Claim C3, as the code has it. The first difference is missing, but
  \<^verbatim>\<open>delta.where(delta > 0, 0)\<close> and \<^verbatim>\<open>delta.where(delta < 0, 0)\<close> put 0 wherever the
  condition is false, which includes the missing first row; gain and loss therefore have no
  missing row, and the rolling means are complete from row \<open>window - 1\<close> on. For a frame
  whose closes are within the float64 range of the window (finite, and small enough that no
  window sum overflows) and a window of at least 1, \<^verbatim>\<open>calculate_rsi\<close> returns a series as
  long as the input that is missing on exactly the first \<open>window - 1\<close> rows and present on
  every later row.
\<close>

theorem rsi_missing_rows:
  assumes "float_column data ''close'' = Inr close"
    and "within_float_range (nat window) close" and "1 \<le> window"
  shows "\<exists>rsi. calculate_rsi data window = Inr rsi \<and> length rsi = length close \<and>
           (\<forall>i<length close. (rsi ! i = NaN) = (i + 1 < nat window))"
proof -
  have fin: "finite_series close"
    using assms(2) by (rule within_float_range_finite)
  have eq: "calculate_rsi data window = Inr (rsi_series close (nat window))"
    using assms(1,3) by (simp add: calculate_rsi_def check_window_def bind_err_def)
  have "\<forall>i<length close. (rsi_series close (nat window) ! i = NaN) = (i + 1 < nat window)"
  proof (intro allI impI)
    fix i assume i: "i < length close"
    show "(rsi_series close (nat window) ! i = NaN) = (i + 1 < nat window)"
    proof (cases "i + 1 < nat window")
      case True
      then show ?thesis using rsi_cold[OF i] by simp
    next
      case False
      then have "nat window \<le> i + 1" by simp
      moreover have "0 < nat window" using assms(3) by simp
      ultimately obtain g l where "rsi_series close (nat window) ! i =
          Fin (100 - 100 / (1 + g / (if l = 0 then float_eps else l)))"
        using rsi_warm[OF fin _ _ i] by blast
      with False show ?thesis by simp
    qed
  qed
  with eq show ?thesis by simp
qed

theorem rsi_missing_rows_witness:
  "within_float_range 2 [Fin 1, Fin 2, Fin 3] \<and>
   (\<exists>rsi. calculate_rsi (price_frame [flat_bar 0 1, flat_bar 1 2, flat_bar 2 3]) 2 = Inr rsi \<and>
     length rsi = 3 \<and> rsi ! 0 = NaN \<and> rsi ! 1 \<noteq> NaN \<and> rsi ! 2 \<noteq> NaN)"
proof -
  let ?d = "price_frame [flat_bar 0 1, flat_bar 1 2, flat_bar 2 3]"
  have c: "float_column ?d ''close'' = Inr [Fin 1, Fin 2, Fin 3]"
    by (simp add: float_column_price_frame flat_bar_def pp_close_def)
  have f: "within_float_range (nat 2) [Fin 1, Fin 2, Fin 3]"
    by (simp add: within_float_range_def float_max_def)
  from rsi_missing_rows[OF c f] obtain rsi where
    r: "calculate_rsi ?d 2 = Inr rsi" "length rsi = 3" "\<forall>i<3. (rsi ! i = NaN) = (i + 1 < 2)"
    by auto
  from r(3) have "rsi ! 0 = NaN" "rsi ! 1 \<noteq> NaN" "rsi ! 2 \<noteq> NaN" by auto
  with r f show ?thesis by auto
qed

text \<open>
  The claim as the specification states it (missing on exactly the first \<open>window\<close> rows)
  fails at the default window: on fifteen rising closes RSI(14) is missing on rows 0 to 12
  only, and row 13, the fourteenth row, already holds a value.
\<close>

theorem rsi_first_window_rows_counterexample:
  "map_sum id isna
     (calculate_rsi (price_frame (map (\<lambda>i. flat_bar i (real_of_int i)) [1..15])) 14)
   = Inr [True, True, True, True, True, True, True, True, True, True, True, True, True,
          False, False]"
  by (simp add: float_column_price_frame flat_bar_def pp_close_def rsi_eval isna_def
      float_eps_def upto.simps)








section \<open>Properties of calculate\_bollinger\_bands\<close>

lemma rolling_apply_nth:
  "i < length xs \<Longrightarrow> rolling_apply f w xs ! i =
     (case window_at w i xs of None \<Rightarrow> NaN
      | Some win \<Rightarrow> (case finite_vals win of None \<Rightarrow> NaN | Some vs \<Rightarrow> f vs))"
  by (simp add: rolling_apply_def)

lemma sample_std_cases: "sample_std vs = NaN \<or> (\<exists>s. sample_std vs = Fin s \<and> 0 \<le> s)"
proof (cases "length vs \<le> 1")
  case True
  then show ?thesis by (simp add: sample_std_def)
next
  case False
  have "0 \<le> (\<Sum>v\<leftarrow>vs. (v - mean vs)\<^sup>2)" by (rule sum_list_nonneg) auto
  moreover have "0 < real (length vs) - 1" using False by simp
  ultimately have "0 \<le> (\<Sum>v\<leftarrow>vs. (v - mean vs)\<^sup>2) / (real (length vs) - 1)" by simp
  with False show ?thesis by (simp add: sample_std_def)
qed

lemma bollinger_row:
  assumes "i < length close"
  shows "bb_middle close w ! i = NaN \<or> bb_std_dev close w ! i = NaN \<or>
         (\<exists>m s. bb_middle close w ! i = Fin m \<and> bb_std_dev close w ! i = Fin s \<and> 0 \<le> s)"
proof (cases "window_at w i close")
  case None
  with assms show ?thesis by (simp add: bb_middle_def rolling_mean_def rolling_apply_nth)
next
  case (Some win)
  show ?thesis
  proof (cases "finite_vals win")
    case None
    with Some assms show ?thesis by (simp add: bb_middle_def rolling_mean_def rolling_apply_nth)
  next
    case (Some vs)
    with \<open>window_at w i close = Some win\<close> assms
    have "bb_middle close w ! i = Fin (mean vs)" "bb_std_dev close w ! i = sample_std vs"
      by (simp_all add: bb_middle_def bb_std_dev_def rolling_mean_def rolling_std_def rolling_apply_nth)
    with sample_std_cases[of vs] show ?thesis by auto
  qed
qed

text \<open>
  Claim C7. Whatever frame, window and non-negative multiplier (the default is 2)
  \<^verbatim>\<open>calculate_bollinger_bands\<close> returns bands for, on every row where the upper, middle and
  lower band are all present the upper band is at least the middle band and the middle band
  is at least the lower band: both outer bands are the middle band plus or minus the
  multiplier times a rolling standard deviation, which is a square root and never negative.
\<close>

theorem bollinger_band_order:
  assumes "calculate_bollinger_bands data window num_std = Inr (upper, middle, lower)"
    and "0 \<le> num_std" and "i < length middle"
    and "upper ! i \<noteq> NaN" and "middle ! i \<noteq> NaN" and "lower ! i \<noteq> NaN"
  shows "fl_ge (upper ! i) (middle ! i) \<and> fl_ge (middle ! i) (lower ! i)"
proof -
  from assms(1) obtain close where
    u: "upper = bb_upper close (nat window) num_std" and
    m: "middle = bb_middle close (nat window)" and
    l: "lower = bb_lower close (nat window) num_std"
    by (auto simp: calculate_bollinger_bands_def check_window_def bind_err_def
        split: sum.splits if_splits)
  from assms(3) m have i: "i < length close"
    by (simp add: bb_middle_def rolling_mean_def)
  have ui: "upper ! i = fl_add (middle ! i) (fl_mul (bb_std_dev close (nat window) ! i) (Fin num_std))"
    using i u m
    by (simp add: bb_upper_def series_add_def series_scale_def bb_middle_def bb_std_dev_def
        rolling_mean_def rolling_std_def)
  have li: "lower ! i = fl_sub (middle ! i) (fl_mul (bb_std_dev close (nat window) ! i) (Fin num_std))"
    using i l m
    by (simp add: bb_lower_def series_sub_def series_scale_def bb_middle_def bb_std_dev_def
        rolling_mean_def rolling_std_def)
  from bollinger_row[OF i, of "nat window"] consider
      "middle ! i = NaN" | "bb_std_dev close (nat window) ! i = NaN"
    | mm s where "middle ! i = Fin mm" "bb_std_dev close (nat window) ! i = Fin s" "0 \<le> s"
    using m by auto
  then show ?thesis
  proof cases
    case 1
    with assms(5) show ?thesis by simp
  next
    case 2
    with ui assms(4) show ?thesis by (cases "middle ! i") simp_all
  next
    case 3
    have "0 \<le> s * num_std" using 3(3) assms(2) by simp
    then have "mm \<le> mm + s * num_std" "mm - s * num_std \<le> mm" by simp_all
    then have "fl_le (Fin mm) (Fin (mm + s * num_std))" "fl_le (Fin (mm - s * num_std)) (Fin mm)"
      unfolding fl_le_def by (auto simp: less_eq_real_def)
    moreover have "upper ! i = Fin (mm + s * num_std)" "lower ! i = Fin (mm - s * num_std)"
      using 3 ui li by (simp_all add: fl_sub_def)
    ultimately show ?thesis using 3(1) by (simp add: fl_ge_def)
  qed
qed

theorem bollinger_band_order_witness:
  "fl_ge (bb_upper [Fin 1, Fin 3] 2 2 ! 1) (bb_middle [Fin 1, Fin 3] 2 ! 1) \<and>
   fl_ge (bb_middle [Fin 1, Fin 3] 2 ! 1) (bb_lower [Fin 1, Fin 3] 2 2 ! 1)"
proof -
  let ?d = "price_frame [flat_bar 0 1, flat_bar 1 3]"
  have c: "float_column ?d ''close'' = Inr [Fin 1, Fin 3]"
    by (simp add: float_column_price_frame flat_bar_def pp_close_def)
  have r: "calculate_bollinger_bands ?d 2 2 =
      Inr (bb_upper [Fin 1, Fin 3] 2 2, bb_middle [Fin 1, Fin 3] 2, bb_lower [Fin 1, Fin 3] 2 2)"
    using c by (simp add: calculate_bollinger_bands_def check_window_def bind_err_def)
  have m: "bb_middle [Fin 1, Fin 3] 2 ! 1 = Fin 2"
    by (simp add: bb_middle_def rolling_mean_def rolling_apply_def window_at_def mean_def)
  have s: "bb_std_dev [Fin 1, Fin 3] 2 ! 1 = Fin (sqrt 2)"
    by (simp add: bb_std_dev_def rolling_std_def rolling_apply_def window_at_def mean_def
        sample_std_def)
  have u: "bb_upper [Fin 1, Fin 3] 2 2 ! 1 \<noteq> NaN"
    using m s by (simp add: bb_upper_def series_add_def series_scale_def bb_middle_def
        bb_std_dev_def rolling_mean_def rolling_std_def)
  have l: "bb_lower [Fin 1, Fin 3] 2 2 ! 1 \<noteq> NaN"
    using m s by (simp add: bb_lower_def series_sub_def series_scale_def bb_middle_def
        bb_std_dev_def rolling_mean_def rolling_std_def fl_sub_def)
  have i: "1 < length (bb_middle [Fin 1, Fin 3] 2)"
    by (simp add: bb_middle_def rolling_mean_def)
  have mm: "bb_middle [Fin 1, Fin 3] 2 ! 1 \<noteq> NaN" using m by simp
  from bollinger_band_order[OF r _ i u mm l] show ?thesis by simp
qed


section \<open>Properties of find\_support\_resistance\<close>

lemma length_keep_where: "length (keep_where xs ks) \<le> length xs"
proof -
  have "length (filter snd (zip xs ks)) \<le> length (zip xs ks)" by (rule length_filter_le)
  then show ?thesis by (simp add: keep_where_def)
qed

lemma set_keep_where: "set (keep_where xs ks) \<subseteq> set xs"
  by (auto simp: keep_where_def dest: set_zip_leftD)

lemma length_recent_levels: "length (recent_levels ls) \<le> 5"
  by (auto simp: recent_levels_def last5_def)

lemma remove_close_levels_enum:
  "map snd (filter (\<lambda>(i, s). far_from s ((pre @ p # rest) ! i)) (enumerate (length pre) rest))
     = keep_far p rest"
proof (induction rest arbitrary: pre p)
  case Nil
  then show ?case by simp
next
  case (Cons s r)
  have "map snd (filter (\<lambda>(i, s'). far_from s' (((pre @ [p]) @ s # r) ! i))
           (enumerate (length (pre @ [p])) r)) = keep_far s r"
    by (rule Cons.IH)
  then show ?case by (simp add: nth_append)
qed

lemma remove_close_levels_rec:
  "remove_close_levels ls = (case ls of [] \<Rightarrow> [] | l0 # rest \<Rightarrow> l0 # keep_far l0 rest)"
proof (cases ls)
  case Nil
  then show ?thesis by (simp add: remove_close_levels_def)
next
  case (Cons l0 rest)
  have "map snd (filter (\<lambda>(i, s). far_from s (([] @ l0 # rest) ! i)) (enumerate (length ([] :: series)) rest))
     = keep_far l0 rest"
    by (rule remove_close_levels_enum)
  with Cons show ?thesis by (simp add: remove_close_levels_def)
qed

lemma length_keep_far: "length (keep_far p rest) \<le> length rest"
  by (induction rest arbitrary: p) (auto simp: le_SucI)

lemma length_remove_close_levels: "length (remove_close_levels ls) \<le> length ls"
  by (cases ls) (simp_all add: remove_close_levels_rec length_keep_far)

lemma local_maxima_short: "length x < 3 \<Longrightarrow> local_maxima_1d x = []"
  unfolding local_maxima_1d_def by (subst local_maxima_from.simps) auto

lemma find_peaks_short:
  assumes "length x < 3" "1 \<le> distance"
  shows "find_peaks x distance prominence = Inr []"
  using assms by (simp add: find_peaks_def local_maxima_short keep_where_def)

lemma find_peaks_total:
  assumes "1 \<le> distance"
  shows "\<exists>ps. find_peaks x distance prominence = Inr ps"
  using assms by (simp add: find_peaks_def Let_def)

text \<open>
  Claim C5, as the code has it. For every frame with a numeric close column and every
  \<^verbatim>\<open>window\<close> of at least 1 (the default is 10), \<^verbatim>\<open>find_support_resistance\<close> returns, and
  returns at most 5 support and at most 5 resistance levels; both sets are empty when the
  series has fewer than 3 points, since a local maximum needs a lower neighbour on each
  side. The \<^verbatim>\<open>distance\<close> argument of \<^verbatim>\<open>find_peaks\<close> only thins out peaks that are close to
  a higher one; it asks for no margin of \<^verbatim>\<open>window\<close> points around a peak.
\<close>

theorem level_sets_at_most_five:
  assumes "float_column data ''close'' = Inr prices" and "1 \<le> window"
  shows "\<exists>sup res. find_support_resistance data window prominence = Inr (sup, res) \<and>
           length sup \<le> 5 \<and> length res \<le> 5 \<and>
           (length prices < 3 \<longrightarrow> sup = [] \<and> res = [])"
proof -
  obtain ri where ri: "find_peaks prices window prominence = Inr ri"
    using find_peaks_total[OF assms(2)] by blast
  obtain si where si: "find_peaks (map fl_neg prices) window prominence = Inr si"
    using find_peaks_total[OF assms(2)] by blast
  let ?sup = "remove_close_levels (recent_levels (map (\<lambda>i. prices ! i) si))"
  let ?res = "remove_close_levels (recent_levels (map (\<lambda>i. prices ! i) ri))"
  have eq: "find_support_resistance data window prominence = Inr (?sup, ?res)"
    using assms(1) ri si by (simp add: find_support_resistance_def bind_err_def Let_def)
  have l: "length ?sup \<le> 5" "length ?res \<le> 5"
    using length_remove_close_levels length_recent_levels le_trans by blast+
  have "length prices < 3 \<Longrightarrow> ri = [] \<and> si = []"
    using ri si find_peaks_short[of prices window prominence]
      find_peaks_short[of "map fl_neg prices" window prominence] assms(2) by simp
  then have "length prices < 3 \<longrightarrow> ?sup = [] \<and> ?res = []"
    by (auto simp: recent_levels_def remove_close_levels_def)
  with eq l show ?thesis by blast
qed

lemmas frame_eval = float_column_price_frame flat_bar_def pp_close_def

theorem level_sets_at_most_five_witness:
  "find_support_resistance (price_frame [flat_bar 0 1900, flat_bar 1 1901]) 10 (1 / 2) = Inr ([], [])"
proof -
  let ?d = "price_frame [flat_bar 0 1900, flat_bar 1 1901]"
  have c: "float_column ?d ''close'' = Inr [Fin 1900, Fin 1901]"
    by (simp add: frame_eval)
  from level_sets_at_most_five[OF c, of 10 "1 / 2"] show ?thesis by auto
qed

text \<open>
  The claim as the specification states it (no level for a series shorter than
  \<open>2 * window + 1\<close>) fails on three points at the default window 10: the middle close 1903
  stands 3 above both neighbours, which is a peak of prominence 3, and it is returned as a
  resistance level.
\<close>

lemma peaks_1900_1903_1900: "find_peaks [Fin 1900, Fin 1903, Fin 1900] 10 (1 / 2) = Inr [1]"
proof -
  let ?x = "[Fin 1900, Fin 1903, Fin 1900]"
  have lm: "local_maxima_1d ?x = [1]"
    by (simp add: local_maxima_1d_def local_maxima_from.simps plateau_end.simps del: One_nat_def)
  have sel: "select_by_peak_distance [1] [Fin 1903] 10 = [True]"
    by (simp add: select_by_peak_distance_def argsort_def sort_by_def clear_right.simps
        del: One_nat_def)
  have n: "?x ! 1 = Fin 1903" by simp
  have lmin: "left_min ?x 1 (Suc 1) (Fin 1903) = Fin 1900"
    by (simp add: fl_le_def)
  have rmin: "right_min ?x 1 1 (Fin 1903) = Fin 1900"
    by (simp add: right_min.simps fl_le_def del: One_nat_def)
  have prom: "peak_prominence ?x 1 = Fin 3"
    by (simp only: peak_prominence_def n lmin rmin) (simp add: fl_max_def fl_gt_def fl_sub_def)
  show ?thesis
    by (simp add: find_peaks_def lm sel prom keep_where_def fl_le_def del: One_nat_def)
qed

lemma troughs_1900_1903_1900:
  "find_peaks [Fin (- 1900), Fin (- 1903), Fin (- 1900)] 10 (1 / 2) = Inr []"
proof -
  have "local_maxima_1d [Fin (- 1900), Fin (- 1903), Fin (- 1900)] = []"
    by (simp add: local_maxima_1d_def local_maxima_from.simps plateau_end.simps del: One_nat_def)
  then show ?thesis by (simp add: find_peaks_def keep_where_def)
qed

theorem short_series_level_counterexample:
  "find_support_resistance (price_frame [flat_bar 0 1900, flat_bar 1 1903, flat_bar 2 1900]) 10 (1 / 2)
     = Inr ([], [Fin 1903])"
  by (simp add: frame_eval find_support_resistance_def bind_err_def peaks_1900_1903_1900
      troughs_1900_1903_1900 recent_levels_def last5_def py_sorted_def sort_by_def
      remove_close_levels_def)

lemma fl_lt_not_nan: "fl_lt a b \<Longrightarrow> a \<noteq> NaN \<and> b \<noteq> NaN"
  by (cases a; cases b) simp_all

lemma fl_eq_not_nan: "fl_eq a b \<Longrightarrow> a \<noteq> NaN \<and> b \<noteq> NaN"
  by (cases a; cases b) simp_all

lemma fl_neg_nan_iff: "fl_neg a = NaN \<longleftrightarrow> a = NaN"
  by (cases a) simp_all

lemma fl_le_total: "a \<noteq> NaN \<Longrightarrow> b \<noteq> NaN \<Longrightarrow> \<not> fl_lt b a \<Longrightarrow> fl_le a b"
  by (cases a; cases b) (auto simp: fl_le_def)

lemma fl_le_trans: "fl_le a b \<Longrightarrow> fl_le b c \<Longrightarrow> fl_le a c"
  by (cases a; cases b; cases c) (auto simp: fl_le_def)

lemma fl_lt_imp_le: "fl_lt a b \<Longrightarrow> fl_le a b"
  by (simp add: fl_le_def)

lemma plateau_end_le: "j \<le> length x - 1 \<Longrightarrow> plateau_end x v j \<le> length x - 1"
proof (induction x v j rule: plateau_end.induct)
  case (1 x v j)
  show ?case
  proof (cases "j < length x - 1 \<and> fl_eq (x ! j) v")
    case True
    then have "plateau_end x v (j + 1) \<le> length x - 1" using 1 by simp
    with True show ?thesis by (subst plateau_end.simps) simp
  next
    case False
    with 1(2) show ?thesis by (subst plateau_end.simps) auto
  qed
qed

lemma plateau_end_eq: "j \<le> k \<Longrightarrow> k < plateau_end x v j \<Longrightarrow> fl_eq (x ! k) v"
proof (induction x v j rule: plateau_end.induct)
  case (1 x v j)
  show ?case
  proof (cases "j < length x - 1 \<and> fl_eq (x ! j) v")
    case True
    then have pe: "plateau_end x v j = plateau_end x v (j + 1)"
      by (subst plateau_end.simps) simp
    show ?thesis
    proof (cases "k = j")
      case True
      with \<open>j < length x - 1 \<and> fl_eq (x ! j) v\<close> show ?thesis by simp
    next
      case False
      with 1(2) have "j + 1 \<le> k" by simp
      with 1(1)[OF True] 1(3) pe show ?thesis by simp
    qed
  next
    case False
    then have "plateau_end x v j = j" by (subst plateau_end.simps) auto
    with 1(2,3) show ?thesis by simp
  qed
qed

lemma local_maxima_from_props:
  "p \<in> set (local_maxima_from x i) \<Longrightarrow> p < length x \<and> x ! p \<noteq> NaN"
proof (induction x i rule: local_maxima_from.induct)
  case (1 x i)
  let ?pe = "plateau_end x (x ! i) (i + 1)"
  show ?case
  proof (cases "i < length x - 1")
    case False
    then have "local_maxima_from x i = []" by (subst local_maxima_from.simps) simp
    with 1(4) show ?thesis by simp
  next
    case i: True
    show ?thesis
    proof (cases "fl_lt (x ! (i - 1)) (x ! i)")
      case False
      with i have "local_maxima_from x i = local_maxima_from x (i + 1)"
        by (subst local_maxima_from.simps) simp
      with 1(3)[OF i False] 1(4) show ?thesis by simp
    next
      case up: True
      show ?thesis
      proof (cases "fl_lt (x ! ?pe) (x ! i)")
        case False
        with i up have "local_maxima_from x i = local_maxima_from x (i + 1)"
          by (subst local_maxima_from.simps) simp
        with 1(2)[OF i up False] 1(4) show ?thesis by simp
      next
        case down: True
        with i up have eq: "local_maxima_from x i =
            ((i + (?pe - 1)) div 2) # local_maxima_from x (?pe + 1)"
          by (subst local_maxima_from.simps) simp
        show ?thesis
        proof (cases "p = (i + (?pe - 1)) div 2")
          case False
          with eq 1(4) have "p \<in> set (local_maxima_from x (?pe + 1))" by simp
          with 1(1)[OF i up down] show ?thesis by simp
        next
          case mid: True
          have ge: "i + 1 \<le> ?pe" by (rule plateau_end_ge)
          have le: "?pe \<le> length x - 1" using i by (intro plateau_end_le) simp
          from ge have b: "i \<le> p" "p \<le> ?pe - 1" using mid by auto
          with le i have len: "p < length x" by simp
          have "x ! p \<noteq> NaN"
          proof (cases "p = i")
            case True
            with up show ?thesis using fl_lt_not_nan by blast
          next
            case False
            with b ge have "i + 1 \<le> p" "p < ?pe" by auto
            then have "fl_eq (x ! p) (x ! i)" by (rule plateau_end_eq)
            then show ?thesis using fl_eq_not_nan by blast
          qed
          with len show ?thesis by simp
        qed
      qed
    qed
  qed
qed

lemma find_peaks_props:
  assumes "find_peaks x distance prominence = Inr ps" and "p \<in> set ps"
  shows "p < length x \<and> x ! p \<noteq> NaN"
proof -
  from assms have "p \<in> set (local_maxima_1d x)"
    using set_keep_where by (fastforce simp: find_peaks_def Let_def split: if_splits)
  then show ?thesis unfolding local_maxima_1d_def by (rule local_maxima_from_props)
qed

lemma set_insort_by: "set (insort_by lt x ys) = insert x (set ys)"
  by (induction ys) auto

lemma set_sort_by: "set (sort_by lt xs) = set xs"
  by (induction xs) (simp_all add: sort_by_def set_insort_by)

lemma sorted_insort_by:
  assumes "sorted_wrt fl_le ys" and "x \<noteq> NaN" and "\<forall>y\<in>set ys. y \<noteq> NaN"
  shows "sorted_wrt fl_le (insort_by fl_lt x ys)"
  using assms
proof (induction ys)
  case Nil
  then show ?case by simp
next
  case (Cons y ys)
  show ?case
  proof (cases "fl_lt y x")
    case True
    have "sorted_wrt fl_le (insort_by fl_lt x ys)" using Cons by simp
    moreover have "\<forall>z\<in>set (insort_by fl_lt x ys). fl_le y z"
      using Cons.prems(1) True by (auto simp: set_insort_by fl_lt_imp_le)
    ultimately show ?thesis using True by simp
  next
    case False
    then have xy: "fl_le x y" using Cons.prems by (simp add: fl_le_total)
    then have "\<forall>z\<in>set ys. fl_le x z" using Cons.prems(1) fl_le_trans by auto
    with xy False Cons.prems(1) show ?thesis by simp
  qed
qed

lemma sorted_py_sorted:
  assumes "\<forall>x\<in>set xs. x \<noteq> NaN"
  shows "sorted_wrt fl_le (py_sorted xs)"
  using assms
proof (induction xs)
  case Nil
  then show ?case by (simp add: py_sorted_def sort_by_def)
next
  case (Cons x xs)
  then have "sorted_wrt fl_le (sort_by fl_lt xs)" by (simp add: py_sorted_def)
  moreover have "\<forall>y\<in>set (sort_by fl_lt xs). y \<noteq> NaN" using Cons.prems by (simp add: set_sort_by)
  ultimately have "sorted_wrt fl_le (insort_by fl_lt x (sort_by fl_lt xs))"
    using Cons.prems by (intro sorted_insort_by) simp_all
  then show ?case by (simp add: py_sorted_def sort_by_def)
qed

lemma set_recent_levels: "set (recent_levels ls) \<subseteq> set ls"
  using set_drop_subset[of _ "py_sorted ls"]
  by (auto simp: recent_levels_def last5_def py_sorted_def set_sort_by)

lemma sorted_recent_levels:
  assumes "\<forall>x\<in>set ls. x \<noteq> NaN"
  shows "sorted_wrt fl_le (recent_levels ls)"
  using sorted_py_sorted[OF assms] by (simp add: recent_levels_def last5_def sorted_wrt_drop)

lemma set_keep_far: "set (keep_far p rest) \<subseteq> set rest"
  by (induction rest arbitrary: p) auto

lemma sorted_keep_far: "sorted_wrt P rest \<Longrightarrow> sorted_wrt P (keep_far p rest)"
proof (induction rest arbitrary: p)
  case Nil
  then show ?case by simp
next
  case (Cons s r)
  then have "sorted_wrt P (keep_far s r)" by simp
  moreover have "\<forall>y\<in>set (keep_far s r). P s y" using Cons.prems set_keep_far by fastforce
  ultimately show ?case by simp
qed

lemma set_remove_close_levels: "set (remove_close_levels ls) \<subseteq> set ls"
  using set_keep_far by (cases ls) (auto simp: remove_close_levels_rec)

lemma sorted_remove_close_levels:
  assumes "sorted_wrt P ls"
  shows "sorted_wrt P (remove_close_levels ls)"
proof (cases ls)
  case Nil
  then show ?thesis by (simp add: remove_close_levels_rec)
next
  case (Cons l0 rest)
  with assms have "sorted_wrt P (keep_far l0 rest)" by (simp add: sorted_keep_far)
  moreover have "\<forall>y\<in>set (keep_far l0 rest). P l0 y" using assms Cons set_keep_far by fastforce
  ultimately show ?thesis using Cons by (simp add: remove_close_levels_rec)
qed

lemma find_support_resistance_unfold:
  assumes "find_support_resistance data window prominence = Inr (support, resistance)"
  shows "\<exists>prices ri si. float_column data ''close'' = Inr prices \<and>
      find_peaks prices window prominence = Inr ri \<and>
      find_peaks (map fl_neg prices) window prominence = Inr si \<and>
      support = remove_close_levels (recent_levels (map (\<lambda>i. prices ! i) si)) \<and>
      resistance = remove_close_levels (recent_levels (map (\<lambda>i. prices ! i) ri))"
  using assms
  by (auto simp: find_support_resistance_def bind_err_def Let_def split: sum.splits)

lemma candidates_in_prices:
  assumes "float_column data ''close'' = Inr prices"
    and "find_support_resistance data window prominence = Inr (support, resistance)"
  shows "set support \<subseteq> set prices - {NaN} \<and> set resistance \<subseteq> set prices - {NaN}"
proof -
  from find_support_resistance_unfold[OF assms(2)] assms(1) obtain ri si where
    ri: "find_peaks prices window prominence = Inr ri" and
    si: "find_peaks (map fl_neg prices) window prominence = Inr si" and
    support: "support = remove_close_levels (recent_levels (map (\<lambda>i. prices ! i) si))" and
    resistance: "resistance = remove_close_levels (recent_levels (map (\<lambda>i. prices ! i) ri))"
    by auto
  have r: "\<forall>p\<in>set ri. prices ! p \<in> set prices - {NaN}"
    using find_peaks_props[OF ri] by auto
  have s: "\<forall>p\<in>set si. prices ! p \<in> set prices - {NaN}"
  proof
    fix p assume "p \<in> set si"
    from find_peaks_props[OF si this] have "p < length prices" "fl_neg (prices ! p) \<noteq> NaN"
      by auto
    then show "prices ! p \<in> set prices - {NaN}" by (auto simp: fl_neg_nan_iff)
  qed
  have "set support \<subseteq> set (map (\<lambda>i. prices ! i) si)"
    unfolding support using set_remove_close_levels set_recent_levels by blast
  moreover have "set resistance \<subseteq> set (map (\<lambda>i. prices ! i) ri)"
    unfolding resistance using set_remove_close_levels set_recent_levels by blast
  moreover have "set (map (\<lambda>i. prices ! i) si) \<subseteq> set prices - {NaN}"
    using s by auto
  moreover have "set (map (\<lambda>i. prices ! i) ri) \<subseteq> set prices - {NaN}"
    using r by auto
  ultimately show ?thesis by (meson subset_trans)
qed

text \<open>
  Claim C10. Whenever \<^verbatim>\<open>find_support_resistance\<close> returns, the support levels and the
  resistance levels are each in ascending order: a peak is never a missing value, so
  \<^verbatim>\<open>sorted\<close> puts the candidates in order, and taking the last five and dropping close
  levels both keep the order.
\<close>

theorem levels_sorted_ascending:
  assumes "find_support_resistance data window prominence = Inr (support, resistance)"
  shows "sorted_wrt fl_le support \<and> sorted_wrt fl_le resistance"
proof -
  from find_support_resistance_unfold[OF assms] obtain prices ri si where
    ri: "find_peaks prices window prominence = Inr ri" and
    si: "find_peaks (map fl_neg prices) window prominence = Inr si" and
    support: "support = remove_close_levels (recent_levels (map (\<lambda>i. prices ! i) si))" and
    resistance: "resistance = remove_close_levels (recent_levels (map (\<lambda>i. prices ! i) ri))"
    by auto
  have "\<forall>v\<in>set (map (\<lambda>i. prices ! i) ri). v \<noteq> NaN"
    using find_peaks_props[OF ri] by auto
  then have r: "sorted_wrt fl_le resistance"
    unfolding resistance by (intro sorted_remove_close_levels sorted_recent_levels)
  have "\<forall>v\<in>set (map (\<lambda>i. prices ! i) si). v \<noteq> NaN"
  proof
    fix v assume "v \<in> set (map (\<lambda>i. prices ! i) si)"
    then obtain p where p: "p \<in> set si" "v = prices ! p" by auto
    from find_peaks_props[OF si p(1)] have "p < length prices" "fl_neg (prices ! p) \<noteq> NaN"
      by auto
    with p show "v \<noteq> NaN" by (auto simp: fl_neg_nan_iff)
  qed
  then have "sorted_wrt fl_le support"
    unfolding support by (intro sorted_remove_close_levels sorted_recent_levels)
  with r show ?thesis by simp
qed


lemma close_flat_series: "map (\<lambda>p. Fin (pp_close p)) (flat_series cs) = map Fin cs"
proof -
  have "map (\<lambda>p. Fin (pp_close p)) (map (\<lambda>(i, c). flat_bar (int i) c) (enumerate n cs)) = map Fin cs" for n
    by (induction cs arbitrary: n) (simp_all add: flat_bar_def pp_close_def)
  then show ?thesis by (simp add: flat_series_def)
qed

lemma float_column_flat_series:
  "float_column (price_frame (flat_series cs)) ''close'' = Inr (map Fin cs)"
  by (simp add: float_column_price_frame close_flat_series)

lemma find_peaks_eval:
  assumes "1 \<le> d" and "local_maxima_1d x = lm"
    and "select_by_peak_distance lm (map (\<lambda>p. x ! p) lm) (nat d) = ks"
    and "filter (\<lambda>p. fl_le (Fin pr) (peak_prominence x p)) (keep_where lm ks) = ps"
  shows "find_peaks x d pr = Inr ps"
  using assms by (simp add: find_peaks_def)

lemma peaks_two_peaks: "find_peaks (map Fin two_peaks) 10 (1 / 2) = Inr [1, 11]"
proof -
  let ?x = "map Fin two_peaks"
  have lm: "local_maxima_1d ?x = [1, 11]"
    by (simp add: two_peaks_def local_maxima_1d_def local_maxima_from.simps plateau_end.simps
        del: One_nat_def)
  have sel: "select_by_peak_distance [1, 11] [Fin 1950, Fin 1960] 10 = [True, True]"
    by (simp add: select_by_peak_distance_def argsort_def sort_by_def clear_right.simps
        del: One_nat_def)
  have n: "?x ! 1 = Fin 1950" "?x ! 11 = Fin 1960" by (simp_all add: two_peaks_def)
  have l1: "left_min ?x 1 (Suc 1) (Fin 1950) = Fin 1900"
    by (simp add: fl_le_def two_peaks_def)
  have r1: "right_min ?x 1 1 (Fin 1950) = Fin 1900"
    by (simp add: right_min.simps fl_le_def two_peaks_def del: One_nat_def)
  have l11: "left_min ?x 11 (Suc 11) (Fin 1960) = Fin 1900"
    by (simp add: fl_le_def two_peaks_def eval_nat_numeral)
  have r11: "right_min ?x 11 11 (Fin 1960) = Fin 1900"
    by (simp add: right_min.simps fl_le_def two_peaks_def del: One_nat_def)
  have p1: "peak_prominence ?x 1 = Fin 50"
    by (simp only: peak_prominence_def n l1 r1) (simp add: fl_max_def fl_gt_def fl_sub_def)
  have p11: "peak_prominence ?x 11 = Fin 60"
    by (simp only: peak_prominence_def n l11 r11) (simp add: fl_max_def fl_gt_def fl_sub_def)
  have x1: "map (\<lambda>p. ?x ! p) [1, 11] = [Fin 1950, Fin 1960]" using n by simp
  have s: "select_by_peak_distance [1, 11] (map (\<lambda>p. ?x ! p) [1, 11]) (nat 10) = [True, True]"
    by (simp only: x1) (simp add: sel del: One_nat_def)
  have f: "filter (\<lambda>p. fl_le (Fin (1 / 2)) (peak_prominence ?x p)) (keep_where [1, 11] [True, True])
      = [1, 11]"
    by (simp add: keep_where_def p1 p11 fl_le_def del: One_nat_def map_map)
  show ?thesis by (rule find_peaks_eval[OF _ lm s f]) simp
qed

lemma troughs_two_peaks: "find_peaks (map fl_neg (map Fin two_peaks)) 10 (1 / 2) = Inr [6]"
proof -
  let ?x = "map fl_neg (map Fin two_peaks)"
  have lm: "local_maxima_1d ?x = [6]"
    by (simp add: two_peaks_def local_maxima_1d_def local_maxima_from.simps plateau_end.simps
        del: One_nat_def)
  have sel: "select_by_peak_distance [6] [Fin (- 1900)] 10 = [True]"
    by (simp add: select_by_peak_distance_def argsort_def sort_by_def clear_right.simps
        del: One_nat_def)
  have n: "?x ! 6 = Fin (- 1900)" by (simp add: two_peaks_def)
  have l: "left_min ?x 6 (Suc 6) (Fin (- 1900)) = Fin (- 1950)"
    by (simp add: fl_le_def two_peaks_def eval_nat_numeral)
  have r: "right_min ?x 6 6 (Fin (- 1900)) = Fin (- 1960)"
    by (simp add: right_min.simps fl_le_def two_peaks_def del: One_nat_def)
  have p: "peak_prominence ?x 6 = Fin 50"
    by (simp only: peak_prominence_def n l r) (simp add: fl_max_def fl_gt_def fl_sub_def)
  have x1: "map (\<lambda>p. ?x ! p) [6] = [Fin (- 1900)]" using n by simp
  have s: "select_by_peak_distance [6] (map (\<lambda>p. ?x ! p) [6]) (nat 10) = [True]"
    by (simp only: x1) (simp add: sel del: One_nat_def)
  have f: "filter (\<lambda>p. fl_le (Fin (1 / 2)) (peak_prominence ?x p)) (keep_where [6] [True]) = [6]"
    by (simp add: keep_where_def p fl_le_def del: One_nat_def map_map)
  show ?thesis by (rule find_peaks_eval[OF _ lm s f]) simp
qed

lemma levels_two_peaks:
  "find_support_resistance (price_frame (flat_series two_peaks)) 10 (1 / 2)
     = Inr ([Fin 1900], [Fin 1950, Fin 1960])"
proof -
  have s: "map (\<lambda>i. map Fin two_peaks ! i) [6] = [Fin 1900]"
    and r: "map (\<lambda>i. map Fin two_peaks ! i) [1, 11] = [Fin 1950, Fin 1960]"
    by (simp_all add: two_peaks_def)
  have "find_support_resistance (price_frame (flat_series two_peaks)) 10 (1 / 2)
     = Inr (remove_close_levels (recent_levels [Fin 1900]),
            remove_close_levels (recent_levels [Fin 1950, Fin 1960]))"
    by (simp only: find_support_resistance_def float_column_flat_series bind_err_def sum.case
        peaks_two_peaks troughs_two_peaks Let_def s r)
  also have "\<dots> = Inr ([Fin 1900], [Fin 1950, Fin 1960])"
    by (simp add: recent_levels_def last5_def py_sorted_def sort_by_def remove_close_levels_def
        far_from_def fl_gt_def fl_sub_def)
  finally show ?thesis .
qed


theorem levels_sorted_ascending_witness:
  "find_support_resistance (price_frame (flat_series two_peaks)) 10 (1 / 2)
     = Inr ([Fin 1900], [Fin 1950, Fin 1960]) \<and>
   sorted_wrt fl_le [Fin 1900] \<and> sorted_wrt fl_le [Fin 1950, Fin 1960]"
  using levels_sorted_ascending[OF levels_two_peaks] levels_two_peaks by simp

lemma gap_widens:
  fixes a p s :: real
  assumes "0 < a" "a \<le> p" "p \<le> s" "\<bar>s - p\<bar> / s > 1 / 1000"
  shows "\<bar>s - a\<bar> / a > 1 / 1000"
proof -
  have s: "0 < s" using assms by linarith
  have "s - p > s / 1000" using assms(3,4) s by (simp add: field_simps)
  then have "s - a > a / 1000" using assms(2,3) by linarith
  then have "(s - a) / a > 1 / 1000" using assms(1) by (simp add: field_simps)
  moreover have "\<bar>s - a\<bar> = s - a" using assms by linarith
  ultimately show ?thesis by simp
qed

lemma fin_pos_D: "fin_pos x \<Longrightarrow> \<exists>r. x = Fin r \<and> 0 < r"
  by (cases x) (simp_all add: fin_pos_def)

lemma spaced_step:
  assumes "fin_pos a" "fin_pos p" "fin_pos s" "fl_le a p" "fl_le p s" "far_from s p"
  shows "spaced a s"
proof -
  from assms(1-3) obtain ra rp rs where
    e: "a = Fin ra" "p = Fin rp" "s = Fin rs" and pos: "0 < ra" "0 < rp" "0 < rs"
    using fin_pos_D by blast
  from assms(4,5) e have le: "ra \<le> rp" "rp \<le> rs" by (auto simp: fl_le_def)
  from assms(6) e pos have "\<bar>rs - rp\<bar> / rs > 1 / 1000"
    by (simp add: far_from_def fl_gt_def fl_sub_def)
  from gap_widens[OF pos(1) le this] e pos show ?thesis
    by (simp add: spaced_def fl_gt_def fl_sub_def)
qed

lemma keep_far_spaced:
  assumes "fin_pos a" "fin_pos p" "\<forall>x\<in>set rest. fin_pos x" "fl_le a p" "sorted_wrt fl_le (p # rest)"
  shows "successively spaced (a # keep_far p rest)"
  using assms
proof (induction rest arbitrary: a p)
  case Nil
  then show ?case by simp
next
  case (Cons s r)
  have s: "fin_pos s" "\<forall>x\<in>set r. fin_pos x" using Cons.prems(3) by simp_all
  have ps: "fl_le p s" and sr: "sorted_wrt fl_le (s # r)" using Cons.prems(5) by simp_all
  have ss: "fl_le s s" using s(1) fin_pos_D[of s] by (auto simp: fl_le_def)
  show ?case
  proof (cases "far_from s p")
    case True
    have "spaced a s" using spaced_step[OF Cons.prems(1,2) s(1) Cons.prems(4) ps True] .
    moreover have "successively spaced (s # keep_far s r)"
      using Cons.IH[OF s(1) s(1) s(2) ss sr] .
    ultimately show ?thesis using True by simp
  next
    case False
    have "fl_le a s" using Cons.prems(4) ps by (rule fl_le_trans)
    from Cons.IH[OF Cons.prems(1) s(1) s(2) this sr] False show ?thesis by simp
  qed
qed

lemma remove_close_levels_spaced:
  assumes "\<forall>x\<in>set ls. fin_pos x" "sorted_wrt fl_le ls"
  shows "successively spaced (remove_close_levels ls)"
proof (cases ls)
  case Nil
  then show ?thesis by (simp add: remove_close_levels_rec)
next
  case (Cons l0 rest)
  have l0: "fin_pos l0" using assms(1) Cons by simp
  then have "fl_le l0 l0" using fin_pos_D[of l0] by (auto simp: fl_le_def)
  with assms Cons l0 have "successively spaced (l0 # keep_far l0 rest)"
    by (intro keep_far_spaced) simp_all
  with Cons show ?thesis by (simp add: remove_close_levels_rec)
qed

text \<open>
  Claim C6. For a frame whose close prices are all positive and finite, in each level set
  that \<^verbatim>\<open>find_support_resistance\<close> returns, a level \<open>a\<close> and the level \<open>b\<close> kept right
  after it satisfy \<open>|b - a| / a > 0.001\<close>. The code compares \<open>b\<close> with the element just
  before it in the sorted list, kept or not, and divides by \<open>b\<close>; since the list ascends,
  that element lies between \<open>a\<close> and \<open>b\<close>, and the spacing from \<open>a\<close> is at least as
  large.
\<close>

theorem kept_levels_spaced:
  assumes "float_column data ''close'' = Inr prices" and "positive_series prices"
    and "find_support_resistance data window prominence = Inr (support, resistance)"
    and "levels = support \<or> levels = resistance" and "Suc i < length levels"
  shows "spaced (levels ! i) (levels ! Suc i)"
proof -
  from find_support_resistance_unfold[OF assms(3)] assms(1) obtain ri si where
    ri: "find_peaks prices window prominence = Inr ri" and
    si: "find_peaks (map fl_neg prices) window prominence = Inr si" and
    sup: "support = remove_close_levels (recent_levels (map (\<lambda>i. prices ! i) si))" and
    res: "resistance = remove_close_levels (recent_levels (map (\<lambda>i. prices ! i) ri))"
    by auto
  have pos: "\<forall>x\<in>set prices. fin_pos x"
    using assms(2) by (simp add: positive_series_def list_all_iff)
  have spaced_of: "successively spaced (remove_close_levels (recent_levels (map (\<lambda>i. prices ! i) idx)))"
    if idx: "\<forall>p\<in>set idx. p < length prices" for idx
  proof -
    have c: "\<forall>x\<in>set (map (\<lambda>i. prices ! i) idx). fin_pos x" using idx pos by auto
    then have "\<forall>x\<in>set (map (\<lambda>i. prices ! i) idx). x \<noteq> NaN" by (auto simp: fin_pos_def)
    then have "sorted_wrt fl_le (recent_levels (map (\<lambda>i. prices ! i) idx))"
      by (rule sorted_recent_levels)
    moreover have "\<forall>x\<in>set (recent_levels (map (\<lambda>i. prices ! i) idx)). fin_pos x"
      using c set_recent_levels by blast
    ultimately show ?thesis by (intro remove_close_levels_spaced)
  qed
  have "\<forall>p\<in>set ri. p < length prices" using find_peaks_props[OF ri] by simp
  then have r: "successively spaced resistance" unfolding res by (rule spaced_of)
  have "\<forall>p\<in>set si. p < length prices" using find_peaks_props[OF si] by simp
  then have s: "successively spaced support" unfolding sup by (rule spaced_of)
  from r s assms(4) have "successively spaced levels" by auto
  then show ?thesis using assms(5) by (rule successively_nth)
qed

theorem kept_levels_spaced_witness:
  "positive_series (map Fin two_peaks) \<and> spaced (Fin 1950) (Fin 1960)"
proof -
  have c: "float_column (price_frame (flat_series two_peaks)) ''close'' = Inr (map Fin two_peaks)"
    by (rule float_column_flat_series)
  have p: "positive_series (map Fin two_peaks)"
    by (simp add: positive_series_def fin_pos_def two_peaks_def)
  have "spaced ([Fin 1950, Fin 1960] ! 0) ([Fin 1950, Fin 1960] ! Suc 0)"
    by (rule kept_levels_spaced[OF c p levels_two_peaks]) simp_all
  with p show ?thesis by simp
qed


end
